theory Spec2Isabelle
  imports Main
begin

section \<open>The storage record (class CasbinRule)\<close>

text \<open>
  A row of the table \<^verbatim>\<open>casbin_rules\<close>: the rule-set name \<^verbatim>\<open>ptype\<close> and six nullable
  string columns. The primary key \<^verbatim>\<open>id\<close> is assigned by the store on insert; an instance
  that has only been built carries \<^verbatim>\<open>id: null\<close>. JavaScript's \<^verbatim>\<open>null\<close> and
  \<^verbatim>\<open>undefined\<close> are \<open>None\<close>; the field \<^verbatim>\<open>id\<close> is named \<open>row_id\<close> here.
\<close>

record CasbinRule =
  row_id :: "nat option"
  ptype :: string
  v0 :: "string option"
  v1 :: "string option"
  v2 :: "string option"
  v3 :: "string option"
  v4 :: "string option"
  v5 :: "string option"

text \<open>
  \<^verbatim>\<open>const [v0, v1, v2, v3, v4, v5] = rule\<close>: position \<open>i\<close> of the array, \<^verbatim>\<open>undefined\<close>
  past its end. Entries from position 6 on are bound to nothing.
\<close>

definition element :: "string list \<Rightarrow> nat \<Rightarrow> string option" where
  "element rule i = (if i < length rule then Some (rule ! i) else None)"

text \<open>
  \<^verbatim>\<open>v || null\<close>: the value itself when it is truthy, \<^verbatim>\<open>null\<close> otherwise. Of the values a
  slot can take, \<^verbatim>\<open>undefined\<close>, \<^verbatim>\<open>null\<close> and the empty string are falsy.
\<close>

definition truthy :: "string option \<Rightarrow> bool" where
  "truthy v = (case v of None \<Rightarrow> False | Some s \<Rightarrow> s \<noteq> [])"

definition or_null :: "string option \<Rightarrow> string option" where
  "or_null v = (if truthy v then v else None)"

definition buildRule :: "string \<Rightarrow> string list \<Rightarrow> CasbinRule" where
  "buildRule pt rule =
     \<lparr> row_id = None,
       ptype = pt,
       v0 = or_null (element rule 0),
       v1 = or_null (element rule 1),
       v2 = or_null (element rule 2),
       v3 = or_null (element rule 3),
       v4 = or_null (element rule 4),
       v5 = or_null (element rule 5) \<rparr>"

text \<open>The six value columns of a row, in column order.\<close>

definition slots :: "CasbinRule \<Rightarrow> string option list" where
  "slots line = [v0 line, v1 line, v2 line, v3 line, v4 line, v5 line]"

section \<open>Reading a row back (the body of the loop of loadPolicy)\<close>

text \<open>
  \<^verbatim>\<open>[line.v0, ..., line.v5].filter(n => n)\<close>: the truthy column values, in column order.
\<close>

definition policy_fields :: "CasbinRule \<Rightarrow> string list" where
  "policy_fields line = map the (filter truthy (slots line))"

text \<open>\<^verbatim>\<open>Array.prototype.join\<close>.\<close>

fun join :: "string \<Rightarrow> string list \<Rightarrow> string" where
  "join sep [] = []"
| "join sep [x] = x"
| "join sep (x # y # ys) = x @ sep @ join sep (y # ys)"

text \<open>
  \<^verbatim>\<open>const result = line.ptype + ', ' + [...].filter(n => n).join(', ')\<close>: the text line
  handed to \<^verbatim>\<open>Helper.loadPolicyLine\<close>.
\<close>

definition policy_line :: "CasbinRule \<Rightarrow> string" where
  "policy_line line = ptype line @ '', '' @ join '', '' (policy_fields line)"

section \<open>The backing store\<close>

text \<open>
  The table behind \<^verbatim>\<open>CasbinRule\<close>, as bound by \<^verbatim>\<open>CasbinRule.init\<close>: its committed rows in
  the order \<^verbatim>\<open>findAll\<close> returns them, and the next auto-generated key. The relational
  engine is outside the repository; it is modelled as the capability the adapter relies
  on: statements run against the rows, a transaction works on a copy that replaces the
  committed rows at commit and is dropped at rollback, and a column matches a search
  value by equality, \<^verbatim>\<open>null\<close> matching exactly the rows where the column is \<^verbatim>\<open>NULL\<close>.
  The model is sequential: one caller, and a call to the store has taken effect when the
  next statement runs.
\<close>

record database =
  rows :: "CasbinRule list"
  next_id :: nat

text \<open>
  What the code can throw: a \<^verbatim>\<open>TypeError\<close> of the language (a property read on
  \<^verbatim>\<open>undefined\<close>, iterating \<^verbatim>\<open>undefined\<close>), \<^verbatim>\<open>new Error('not implemented')\<close>, and the
  rejection of a call to the store, which the adapter passes on as it is. \<open>ArityError\<close> and
  \<open>NotOpen\<close> are the two failures of the specification's taxonomy that no statement of the
  source raises; they are listed so that their absence can be stated.
\<close>

datatype error = TypeError | NotImplemented | StoreError | ArityError | NotOpen

text \<open>
  The calls to the store that are made to reject, one flag per call site kind: this is
  how a fault is injected into an operation.
\<close>

record faults =
  fail_transaction :: bool
  fail_destroy :: bool
  fail_bulkCreate :: bool
  fail_commit :: bool
  fail_findAll :: bool
  fail_save :: bool

definition no_faults :: faults where
  "no_faults = \<lparr> fail_transaction = False, fail_destroy = False, fail_bulkCreate = False,
     fail_commit = False, fail_findAll = False, fail_save = False \<rparr>"

text \<open>\<^verbatim>\<open>CasbinRule.findAll()\<close>.\<close>

definition findAll :: "faults \<Rightarrow> database \<Rightarrow> error + CasbinRule list" where
  "findAll f db = (if fail_findAll f then Inl StoreError else Inr (rows db))"

text \<open>Inserting one row: the store assigns the key.\<close>

definition insert_row :: "CasbinRule \<Rightarrow> database \<Rightarrow> database" where
  "insert_row line db =
     db \<lparr> rows := rows db @ [line \<lparr> row_id := Some (next_id db) \<rparr>],
          next_id := Suc (next_id db) \<rparr>"

text \<open>\<^verbatim>\<open>CasbinRule.bulkCreate(lines.map(l => l.get({ plain: true })))\<close>.\<close>

definition bulkCreate :: "CasbinRule list \<Rightarrow> database \<Rightarrow> database" where
  "bulkCreate lines db = foldl (\<lambda>d line. insert_row line d) db lines"

text \<open>\<^verbatim>\<open>CasbinRule.destroy({ where: {}, truncate: true })\<close>.\<close>

definition truncateTable :: "database \<Rightarrow> database" where
  "truncateTable db = db \<lparr> rows := [] \<rparr>"

text \<open>
  A plain object, as \<^verbatim>\<open>line.get({ plain: true })\<close> returns it: the columns by name.
\<close>

datatype jsval = Null | Str string | Num nat

definition of_slot :: "string option \<Rightarrow> jsval" where
  "of_slot v = (case v of None \<Rightarrow> Null | Some s \<Rightarrow> Str s)"

definition get_plain :: "CasbinRule \<Rightarrow> (string \<times> jsval) list" where
  "get_plain line =
     [(''id'', case row_id line of None \<Rightarrow> Null | Some n \<Rightarrow> Num n),
      (''ptype'', Str (ptype line)),
      (''v0'', of_slot (v0 line)),
      (''v1'', of_slot (v1 line)),
      (''v2'', of_slot (v2 line)),
      (''v3'', of_slot (v3 line)),
      (''v4'', of_slot (v4 line)),
      (''v5'', of_slot (v5 line))]"

text \<open>\<^verbatim>\<open>delete where.id\<close>.\<close>

definition delete_key :: "string \<Rightarrow> (string \<times> jsval) list \<Rightarrow> (string \<times> jsval) list" where
  "delete_key k obj = filter (\<lambda>kv. fst kv \<noteq> k) obj"

text \<open>A row satisfies a \<^verbatim>\<open>where\<close> object when every column it names holds the value it gives.\<close>

definition where_matches :: "(string \<times> jsval) list \<Rightarrow> CasbinRule \<Rightarrow> bool" where
  "where_matches wh r = list_all (\<lambda>kv. map_of (get_plain r) (fst kv) = Some (snd kv)) wh"

text \<open>\<^verbatim>\<open>CasbinRule.destroy({ where })\<close>: every row that satisfies \<^verbatim>\<open>where\<close> is deleted.\<close>

definition destroy :: "(string \<times> jsval) list \<Rightarrow> database \<Rightarrow> database" where
  "destroy wh db = db \<lparr> rows := filter (\<lambda>r. \<not> where_matches wh r) (rows db) \<rparr>"

section \<open>The policy model of the engine\<close>

text \<open>
  \<^verbatim>\<open>model.model\<close> is a \<^verbatim>\<open>Map\<close> from section name to a \<^verbatim>\<open>Map\<close> from rule-set name to an
  assertion, of which the adapter reads the field \<^verbatim>\<open>policy\<close>. The inner map is iterated
  in insertion order, so it is an association list.
\<close>

record Assertion =
  policy :: "string list list"

type_synonym AstMap = "(string \<times> Assertion) list"

type_synonym Model = "string \<rightharpoonup> AstMap"

section \<open>The adapter (class SequelizeAdapter)\<close>

datatype Sequelize = Connection

record SequelizeAdapter =
  sequelize :: "Sequelize option"

text \<open>A newly constructed adapter: the field \<^verbatim>\<open>sequelize\<close> is \<^verbatim>\<open>undefined\<close> until \<^verbatim>\<open>init\<close> runs.\<close>

definition new_adapter :: SequelizeAdapter where
  "new_adapter = \<lparr> sequelize = None \<rparr>"

text \<open>
  \<^verbatim>\<open>CasbinRule\<close> is one class per process, shared by every adapter. Until
  \<^verbatim>\<open>CasbinRule.init\<close> has run it has neither attributes nor a connection; afterwards it is
  bound to the table \<^verbatim>\<open>casbin_rules\<close> of the connection it was given.
\<close>

datatype CasbinRule_class = Uninitialised | Bound Sequelize

text \<open>
  \<^verbatim>\<open>init(sequelize)\<close> has two statements: \<^verbatim>\<open>this.sequelize = sequelize\<close>, on the adapter, and
  \<^verbatim>\<open>CasbinRule.init({...}, { sequelize, modelName: 'casbin_rules' })\<close>, on the class. It
  takes the adapter and the state of the class and returns both.
\<close>

definition init ::
  "Sequelize \<Rightarrow> SequelizeAdapter \<Rightarrow> CasbinRule_class \<Rightarrow> SequelizeAdapter \<times> CasbinRule_class" where
  "init s a c = (a \<lparr> sequelize := Some s \<rparr>, Bound s)"

text \<open>
  The five operations are first defined as they run once the class is bound, against
  the table it is bound to; the state of the class is added to them in the section on
  the class in a process below.
\<close>

subsection \<open>loadPolicy\<close>

text \<open>
  \<^verbatim>\<open>Helper.loadPolicyLine\<close> belongs to the engine, not to the repository: it is the
  parameter \<open>loadPolicyLine\<close>. The model is mutated in place in the source and returned
  here. A rejected \<^verbatim>\<open>findAll\<close> is thrown before the model is touched.
\<close>

definition loadPolicy ::
  "(string \<Rightarrow> 'm \<Rightarrow> 'm) \<Rightarrow> faults \<Rightarrow> SequelizeAdapter \<Rightarrow> 'm \<Rightarrow> database \<Rightarrow> error + 'm" where
  "loadPolicy loadPolicyLine f a model db =
     (case findAll f db of
        Inl ex \<Rightarrow> Inl ex
      | Inr lines \<Rightarrow> Inr (foldl (\<lambda>m line. loadPolicyLine (policy_line line) m) model lines))"

subsection \<open>savePolicy\<close>

text \<open>
  The two nested loops over one section, \<^verbatim>\<open>for (const [ptype, ast] of astMap)\<close> and
  \<^verbatim>\<open>for (const rule of ast.policy)\<close>: the pairs of rule-set name and rule they visit, in
  order, and the row built for each.
\<close>

definition section_rules :: "AstMap \<Rightarrow> (string \<times> string list) list" where
  "section_rules astMap = concat (map (\<lambda>(pt, ast). map (\<lambda>rule. (pt, rule)) (policy ast)) astMap)"

definition section_lines :: "AstMap \<Rightarrow> CasbinRule list" where
  "section_lines astMap = map (\<lambda>(pt, rule). buildRule pt rule) (section_rules astMap)"

text \<open>
  The body of the \<^verbatim>\<open>try\<close> block, run on the transaction's copy of the table. Iterating a
  section the model does not have (\<^verbatim>\<open>model.model.get('p')\<close> is \<^verbatim>\<open>undefined\<close>) throws a
  \<^verbatim>\<open>TypeError\<close>.
\<close>

definition savePolicy_try :: "faults \<Rightarrow> Model \<Rightarrow> database \<Rightarrow> error + database" where
  "savePolicy_try f model tx =
     (if fail_destroy f then Inl StoreError
      else
        let tx1 = truncateTable tx in
        case model ''p'' of
          None \<Rightarrow> Inl TypeError
        | Some astMap_p \<Rightarrow>
            (case model ''g'' of
               None \<Rightarrow> Inl TypeError
             | Some astMap_g \<Rightarrow>
                 let lines = section_lines astMap_p @ section_lines astMap_g in
                 if fail_bulkCreate f then Inl StoreError
                 else Inr (bulkCreate lines tx1)))"

text \<open>
  \<^verbatim>\<open>this.sequelize.transaction()\<close> is awaited outside the \<^verbatim>\<open>try\<close>: on an adapter without a
  \<^verbatim>\<open>sequelize\<close> it is a \<^verbatim>\<open>TypeError\<close>, and its rejection is thrown as it is. An exception
  of the body is caught, the transaction rolled back and the exception thrown again.
  \<^verbatim>\<open>tx.commit()\<close> is not awaited: the function returns \<^verbatim>\<open>true\<close> whether or not the commit
  goes through, and the committed rows change only if it does.
\<close>

definition savePolicy ::
  "faults \<Rightarrow> SequelizeAdapter \<Rightarrow> Model \<Rightarrow> database \<Rightarrow> (error + bool) \<times> database" where
  "savePolicy f a model db =
     (case sequelize a of
        None \<Rightarrow> (Inl TypeError, db)
      | Some s \<Rightarrow>
          if fail_transaction f then (Inl StoreError, db)
          else
            (case savePolicy_try f model db of
               Inl ex \<Rightarrow> (Inl ex, db)
             | Inr tx \<Rightarrow> (Inr True, if fail_commit f then db else tx)))"

subsection \<open>addPolicy, removePolicy, removeFilteredPolicy\<close>

definition addPolicy ::
  "faults \<Rightarrow> SequelizeAdapter \<Rightarrow> string \<Rightarrow> string \<Rightarrow> string list \<Rightarrow> database
     \<Rightarrow> (error + unit) \<times> database" where
  "addPolicy f a sec pt rule db =
     (let line = buildRule pt rule in
      if fail_save f then (Inl StoreError, db)
      else (Inr (), insert_row line db))"

definition removePolicy ::
  "faults \<Rightarrow> SequelizeAdapter \<Rightarrow> string \<Rightarrow> string \<Rightarrow> string list \<Rightarrow> database
     \<Rightarrow> (error + unit) \<times> database" where
  "removePolicy f a sec pt rule db =
     (let line = buildRule pt rule;
          wh = delete_key ''id'' (get_plain line) in
      if fail_destroy f then (Inl StoreError, db)
      else (Inr (), destroy wh db))"

definition removeFilteredPolicy ::
  "SequelizeAdapter \<Rightarrow> string \<Rightarrow> string \<Rightarrow> int \<Rightarrow> string list \<Rightarrow> database
     \<Rightarrow> (error + unit) \<times> database" where
  "removeFilteredPolicy a sec pt fieldIndex fieldValues db = (Inl NotImplemented, db)"

section \<open>The operations and the state of the class\<close>





section \<open>Stores written through the adapter\<close>

text \<open>
  The stores that can be reached from an empty table by the adapter's own mutating
  operations, with any faults injected and any arguments.
\<close>

inductive reachable :: "database \<Rightarrow> bool" where
  empty: "reachable \<lparr> rows = [], next_id = n \<rparr>"
| add: "reachable db \<Longrightarrow> reachable (snd (addPolicy f a sec pt rule db))"
| remove: "reachable db \<Longrightarrow> reachable (snd (removePolicy f a sec pt rule db))"
| save: "reachable db \<Longrightarrow> reachable (snd (savePolicy f a model db))"

text \<open>
  The present values of a row as the specification words them: every slot that holds a
  value, in slot order, holes skipped.
\<close>

definition present_values :: "CasbinRule \<Rightarrow> string list" where
  "present_values line = concat (map (\<lambda>v. case v of None \<Rightarrow> [] | Some s \<Rightarrow> [s]) (slots line))"

section \<open>The engine's line loader\<close>

text \<open>
  Cutting a line at every occurrence of a character, removing the blanks around a token,
  and appending a rule to the rule-set \<open>key\<close> of a section: the three steps of the line
  loader below.
\<close>

fun split_on :: "char \<Rightarrow> string \<Rightarrow> string list" where
  "split_on c [] = [[]]"
| "split_on c (x # xs) =
     (if x = c then [] # split_on c xs
      else (case split_on c xs of [] \<Rightarrow> [[x]] | w # ws \<Rightarrow> (x # w) # ws))"

definition trim :: "string \<Rightarrow> string" where
  "trim s = rev (dropWhile (\<lambda>c. c = CHR '' '') (rev (dropWhile (\<lambda>c. c = CHR '' '') s)))"

definition push_rule :: "string \<Rightarrow> string list \<Rightarrow> AstMap \<Rightarrow> AstMap" where
  "push_rule key rule astMap =
     map (\<lambda>(k, ast). if k = key then (k, ast \<lparr> policy := policy ast @ [rule] \<rparr>) else (k, ast))
       astMap"

text \<open>
  Modelled from the spec: \<^verbatim>\<open>Helper.loadPolicyLine\<close> is imported from the package \<^verbatim>\<open>casbin\<close>
  and is not among the sources. The specification (sections 4.2 and 6) has each decoded
  rule inserted into the model's rule-set collection keyed by its \<^verbatim>\<open>ptype\<close>. The line is
  cut at its commas and the tokens are trimmed; the first token is the key, the first
  character of the key names the section, and the remaining tokens are appended as one
  rule to the rule-set of that key. An empty line, a comment line and a line for a
  section or a rule-set the model does not have are dropped. Only the two worked examples
  of a save followed by a load use this definition; every general statement about
  \<open>loadPolicy\<close> is proved for an arbitrary line loader.
\<close>

definition Helper_loadPolicyLine :: "string \<Rightarrow> Model \<Rightarrow> Model" where
  "Helper_loadPolicyLine line model =
     (if line = [] \<or> take 1 line = ''#'' then model
      else
        (case map trim (split_on CHR '','' line) of
           [] \<Rightarrow> model
         | key # tokens \<Rightarrow>
             (case model (take 1 key) of
                None \<Rightarrow> model
              | Some astMap \<Rightarrow>
                  (case map_of astMap key of
                     None \<Rightarrow> model
                   | Some ast \<Rightarrow> model (take 1 key \<mapsto> push_rule key tokens astMap)))))"

section \<open>Properties\<close>

subsection \<open>What buildRule stores and what loadPolicy reads back\<close>

lemma ptype_buildRule: "ptype (buildRule pt rule) = pt"
  by (simp add: buildRule_def)

lemma slots_buildRule:
  "slots (buildRule pt rule) = map (\<lambda>i. or_null (element rule i)) [0, 1, 2, 3, 4, 5]"
  by (simp add: slots_def buildRule_def)

lemma element_take: "i < n \<Longrightarrow> element (take n rule) i = element rule i"
  by (simp add: element_def)

lemma buildRule_take: "buildRule pt (take 6 rule) = buildRule pt rule"
  by (simp add: buildRule_def element_take)

lemma policy_fields_map_filter: "policy_fields line = List.map_filter or_null (slots line)"
proof -
  have "filter (\<lambda>v. or_null v \<noteq> None) (slots line) = filter truthy (slots line)"
    by (rule filter_cong) (auto simp add: or_null_def truthy_def split: option.splits)
  moreover have "map (the \<circ> or_null) (filter truthy (slots line)) = map the (filter truthy (slots line))"
    by (rule map_cong) (auto simp add: or_null_def)
  ultimately show ?thesis
    by (simp add: policy_fields_def List.map_filter_def)
qed

lemma map_filter_append:
  "List.map_filter f (xs @ ys) = List.map_filter f xs @ List.map_filter f ys"
  by (simp add: List.map_filter_def)

text \<open>
  Reading the first \<open>n\<close> slots of a built row gives the non-empty ones among the first
  \<open>n\<close> parameters: by induction on \<open>n\<close>, one slot at a time.
\<close>

lemma fields_upto:
  "List.map_filter or_null (map (\<lambda>i. or_null (element rule i)) [0..<n])
     = filter (\<lambda>s. s \<noteq> []) (take n rule)"
proof (induction n)
  case 0
  then show ?case by simp
next
  case (Suc n)
  show ?case
  proof (cases "n < length rule")
    case True
    then show ?thesis
      using Suc
      by (simp add: map_filter_append take_Suc_conv_app_nth or_null_def truthy_def element_def)
  next
    case False
    then show ?thesis
      using Suc by (simp add: map_filter_append or_null_def truthy_def element_def)
  qed
qed

lemma upt6: "[0..<6] = [0, 1, 2, 3, 4, 5::nat]"
  by (simp add: upt_rec)

lemma policy_fields_buildRule:
  "policy_fields (buildRule pt rule) = filter (\<lambda>s. s \<noteq> []) (take 6 rule)"
  unfolding policy_fields_map_filter slots_buildRule upt6 [symmetric] by (rule fields_upto)

lemma filter_take_id:
  "(filter P (take n xs) = xs) = (length xs \<le> n \<and> (\<forall>x\<in>set xs. P x))"
proof
  assume eq: "filter P (take n xs) = xs"
  have "length (filter P (take n xs)) \<le> length (take n xs)" by (rule length_filter_le)
  with eq have len: "length xs \<le> n" by simp
  with eq have "filter P xs = xs" by simp
  then have "\<forall>x\<in>set xs. P x" by (simp add: filter_id_conv)
  with len show "length xs \<le> n \<and> (\<forall>x\<in>set xs. P x)" by simp
next
  assume "length xs \<le> n \<and> (\<forall>x\<in>set xs. P x)"
  then show "filter P (take n xs) = xs" by (simp add: filter_id_conv)
qed

text \<open>
  The slots of a row built from at most six parameters, none of them empty: the
  parameters, then absent slots. Both lists have length six and agree at every index.
\<close>

lemma slots_buildRule_full:
  assumes "length params \<le> 6" and "[] \<notin> set params"
  shows "slots (buildRule pt params) = map Some params @ replicate (6 - length params) None"
proof -
  have "\<And>i. i < length params \<Longrightarrow> params ! i \<noteq> []"
    using assms(2) nth_mem by metis
  then have nth: "\<And>i. i < length params \<Longrightarrow> or_null (element params i) = Some (params ! i)"
    by (simp add: or_null_def truthy_def element_def)
  have past: "\<And>i. \<not> i < length params \<Longrightarrow> or_null (element params i) = None"
    by (simp add: or_null_def truthy_def element_def)
  have "length (slots (buildRule pt params)) = 6"
    by (simp add: slots_def)
  moreover have "length (map Some params @ replicate (6 - length params) None) = 6"
    using assms(1) by simp
  moreover have "\<And>i. i < 6 \<Longrightarrow> slots (buildRule pt params) ! i
      = (map Some params @ replicate (6 - length params) None) ! i"
  proof -
    fix i :: nat
    assume "i < 6"
    then have sl: "slots (buildRule pt params) ! i = or_null (element params i)"
      unfolding slots_buildRule
      by (auto simp add: less_Suc_eq numeral_eq_Suc)
    show "slots (buildRule pt params) ! i
      = (map Some params @ replicate (6 - length params) None) ! i"
    proof (cases "i < length params")
      case True
      then show ?thesis by (simp add: sl nth nth_append)
    next
      case False
      with \<open>i < 6\<close> show ?thesis by (simp add: sl past nth_append)
    qed
  qed
  ultimately show ?thesis
    by (simp add: list_eq_iff_nth_eq)
qed

text \<open>
  C3, as the specification states it, fails: a parameter list of length one that holds
  the empty string is stored with every slot absent and read back as the empty list.
\<close>

theorem buildRule_roundtrip_counterexample:
  "buildRule ''p'' [''''] =
     \<lparr> row_id = None, ptype = ''p'', v0 = None, v1 = None, v2 = None, v3 = None, v4 = None,
       v5 = None \<rparr>
   \<and> policy_fields (buildRule ''p'' ['''']) = []
   \<and> (ptype (buildRule ''p'' ['''']), policy_fields (buildRule ''p'' [''''])) \<noteq> (''p'', [''''])"
  by (simp add: buildRule_def policy_fields_def slots_def or_null_def truthy_def element_def)

text \<open>
  C3, amended. For every rule-set name and every parameter list, the row built by
  buildRule keeps the name, and loadPolicy reads back from it the non-empty strings
  among the first six parameters, in order; the text line it hands to the engine is the
  name followed by these values. What is read back is the pair (name, parameters) exactly
  when there are at most six parameters and none of them is the empty string.
\<close>

theorem buildRule_roundtrip:
  "ptype (buildRule pt params) = pt
   \<and> policy_fields (buildRule pt params) = filter (\<lambda>s. s \<noteq> []) (take 6 params)
   \<and> policy_line (buildRule pt params)
       = pt @ '', '' @ join '', '' (filter (\<lambda>s. s \<noteq> []) (take 6 params))
   \<and> ((ptype (buildRule pt params), policy_fields (buildRule pt params)) = (pt, params))
       = (length params \<le> 6 \<and> [] \<notin> set params)"
proof -
  have "(filter (\<lambda>s. s \<noteq> []) (take 6 params) = params)
          = (length params \<le> 6 \<and> [] \<notin> set params)"
    by (auto simp add: filter_take_id)
  then show ?thesis
    by (simp add: policy_line_def ptype_buildRule policy_fields_buildRule)
qed

subsection \<open>The arity of a rule\<close>

text \<open>
  C4, as the specification states it, fails: a rule of seven parameters is built without
  any error, its seventh parameter dropped, and addPolicy stores the shortened row and
  reports success.
\<close>

theorem buildRule_arity_counterexample:
  "buildRule ''p'' [''a'', ''b'', ''c'', ''d'', ''e'', ''f'', ''g''] =
     \<lparr> row_id = None, ptype = ''p'', v0 = Some ''a'', v1 = Some ''b'', v2 = Some ''c'',
       v3 = Some ''d'', v4 = Some ''e'', v5 = Some ''f'' \<rparr>
   \<and> addPolicy no_faults new_adapter [] ''p'' [''a'', ''b'', ''c'', ''d'', ''e'', ''f'', ''g'']
        \<lparr> rows = [], next_id = 1 \<rparr> =
      (Inr (), \<lparr> rows = [\<lparr> row_id = Some 1, ptype = ''p'', v0 = Some ''a'', v1 = Some ''b'',
                  v2 = Some ''c'', v3 = Some ''d'', v4 = Some ''e'', v5 = Some ''f'' \<rparr>],
                next_id = 2 \<rparr>)"
  by (simp add: buildRule_def addPolicy_def insert_row_def no_faults_def or_null_def truthy_def
      element_def)

text \<open>
  C4, amended. buildRule never fails and there is no arity error: for every parameter
  list it builds the row of the first six parameters, so parameters past the sixth are
  dropped; addPolicy never fails with \<open>ArityError\<close> and, unless the store rejects the
  insert, stores that row and succeeds. With exactly six parameters, none of them the
  empty string, all six slots are filled with the parameters.
\<close>

theorem buildRule_arity:
  "buildRule pt params = buildRule pt (take 6 params)
   \<and> fst (addPolicy f a sec pt params db) \<noteq> Inl ArityError
   \<and> (\<not> fail_save f \<longrightarrow>
        addPolicy f a sec pt params db = (Inr (), insert_row (buildRule pt (take 6 params)) db))
   \<and> (length params = 6 \<and> [] \<notin> set params \<longrightarrow>
        slots (buildRule pt params) = map Some params)"
proof -
  have "length params = 6 \<and> [] \<notin> set params \<longrightarrow> slots (buildRule pt params) = map Some params"
    using slots_buildRule_full [of params pt] by simp
  then show ?thesis
    by (simp add: buildRule_take addPolicy_def)
qed

theorem buildRule_arity_witness:
  "\<not> fail_save no_faults
   \<and> length [''a'', ''b'', ''c'', ''d'', ''e'', ''f''] = 6
   \<and> [] \<notin> set [''a'', ''b'', ''c'', ''d'', ''e'', ''f'']
   \<and> addPolicy no_faults new_adapter [] ''p'' [''a'', ''b'', ''c'', ''d'', ''e'', ''f'']
        \<lparr> rows = [], next_id = 1 \<rparr>
      = (Inr (), insert_row (buildRule ''p'' (take 6 [''a'', ''b'', ''c'', ''d'', ''e'', ''f'']))
           \<lparr> rows = [], next_id = 1 \<rparr>)
   \<and> slots (buildRule ''p'' [''a'', ''b'', ''c'', ''d'', ''e'', ''f''])
      = [Some ''a'', Some ''b'', Some ''c'', Some ''d'', Some ''e'', Some ''f'']"
  using buildRule_arity [of "''p''" "[''a'', ''b'', ''c'', ''d'', ''e'', ''f'']" no_faults
      new_adapter "[]" "\<lparr> rows = [], next_id = 1 \<rparr>"]
  by (simp add: no_faults_def)

subsection \<open>removePolicy\<close>

text \<open>
  The \<^verbatim>\<open>where\<close> object of removePolicy, the plain object of the built row without its
  \<^verbatim>\<open>id\<close>, is satisfied by exactly the rows with the same name and the same six slots.
\<close>

lemma where_matches_buildRule:
  "where_matches (delete_key ''id'' (get_plain line)) r
     \<longleftrightarrow> ptype r = ptype line \<and> slots r = slots line"
  by (auto simp add: where_matches_def delete_key_def get_plain_def slots_def of_slot_def
      split: option.splits)

lemma removePolicy_rows:
  "removePolicy f a sec pt params db =
     (if fail_destroy f then (Inl StoreError, db)
      else (Inr (), db \<lparr> rows := filter (\<lambda>r. \<not> (ptype r = pt \<and> slots r = slots (buildRule pt params)))
                                 (rows db) \<rparr>))"
  by (simp add: removePolicy_def destroy_def where_matches_buildRule ptype_buildRule)

text \<open>
  The slots of the built row, written out: slot \<open>i\<close> holds parameter \<open>i\<close> when the list has
  one at that position and it is not the empty string, and is absent otherwise.
\<close>

lemma slots_buildRule_explicit:
  "slots (buildRule pt params)
     = map (\<lambda>i. if i < length params \<and> params ! i \<noteq> [] then Some (params ! i) else None) [0..<6]"
  unfolding slots_buildRule upt6 by (simp add: or_null_def truthy_def element_def)

text \<open>
  C5, as the specification states it, fails. The store holds two rows of rule-set \<open>p\<close>
  with \<open>v0 = alice\<close>: the first with \<open>v1\<close> absent, the second with \<open>v1\<close> the empty string
  (and every higher slot absent). removePolicy with the parameters \<open>alice\<close> and the empty
  string deletes the first, whose slots are not the parameters, and keeps the second,
  whose slots \<open>v0\<close>, \<open>v1\<close> are the parameters and whose higher slots are absent.
\<close>

theorem removePolicy_deletes_matching_counterexample:
  "removePolicy no_faults (fst (init Connection new_adapter Uninitialised)) [] ''p''
        [''alice'', '''']
        \<lparr> rows = [\<lparr> row_id = Some 1, ptype = ''p'', v0 = Some ''alice'', v1 = None,
                    v2 = None, v3 = None, v4 = None, v5 = None \<rparr>,
                  \<lparr> row_id = Some 2, ptype = ''p'', v0 = Some ''alice'', v1 = Some '''',
                    v2 = None, v3 = None, v4 = None, v5 = None \<rparr>],
          next_id = 3 \<rparr>
     = (Inr (),
        \<lparr> rows = [\<lparr> row_id = Some 2, ptype = ''p'', v0 = Some ''alice'', v1 = Some '''',
                    v2 = None, v3 = None, v4 = None, v5 = None \<rparr>],
          next_id = 3 \<rparr>)
   \<and> slots \<lparr> row_id = Some 2, ptype = ''p'', v0 = Some ''alice'', v1 = Some '''',
         v2 = None, v3 = None, v4 = None, v5 = None \<rparr>
       = map Some [''alice'', ''''] @ replicate 4 None
   \<and> slots \<lparr> row_id = Some 1, ptype = ''p'', v0 = Some ''alice'', v1 = None,
         v2 = None, v3 = None, v4 = None, v5 = None \<rparr>
       \<noteq> map Some [''alice'', ''''] @ replicate 4 None"
  by (simp add: removePolicy_def destroy_def where_matches_def delete_key_def get_plain_def
      of_slot_def buildRule_def or_null_def truthy_def element_def no_faults_def slots_def
      numeral_eq_Suc)

text \<open>
  C5, amended. For every rule-set name, parameter list and store, removePolicy, unless
  the store rejects the statement, succeeds and leaves exactly the rows that do not have
  both the given name and these six slots: slot \<open>i\<close> holding parameter \<open>i\<close> where the list
  has a non-empty string at position \<open>i\<close>, and absent otherwise (so an empty-string
  parameter and a position past the end of the list both ask for an absent slot, and
  parameters past the sixth are not looked at). Rows are compared on name and slots
  only, never on \<open>row_id\<close>, so every duplicate goes; when no row matches the store is
  unchanged and the call still succeeds. For at most six parameters, none of them the
  empty string, the six slots are the parameters followed by absent slots.
\<close>

theorem removePolicy_deletes_matching:
  "(\<not> fail_destroy f \<longrightarrow>
      fst (removePolicy f a sec pt params db) = Inr ()
    \<and> rows (snd (removePolicy f a sec pt params db))
        = filter (\<lambda>r. \<not> (ptype r = pt
                          \<and> slots r = map (\<lambda>i. if i < length params \<and> params ! i \<noteq> []
                                                  then Some (params ! i) else None) [0..<6]))
            (rows db)
    \<and> next_id (snd (removePolicy f a sec pt params db)) = next_id db)
   \<and> (length params \<le> 6 \<and> [] \<notin> set params \<longrightarrow>
        map (\<lambda>i. if i < length params \<and> params ! i \<noteq> [] then Some (params ! i) else None) [0..<6]
          = map Some params @ replicate (6 - length params) None)"
proof -
  have "length params \<le> 6 \<and> [] \<notin> set params \<longrightarrow>
        map (\<lambda>i. if i < length params \<and> params ! i \<noteq> [] then Some (params ! i) else None) [0..<6]
          = map Some params @ replicate (6 - length params) None"
    using slots_buildRule_full [of params pt] slots_buildRule_explicit [of pt params] by simp
  then show ?thesis
    by (simp add: removePolicy_rows slots_buildRule_explicit)
qed

text \<open>
  An instance: of three rows of the rule \<open>alice\<close>, \<open>data1\<close>, \<open>read\<close>, two are copies under
  different keys and one has a fourth slot filled; the copies go and the third stays.
\<close>

theorem removePolicy_deletes_matching_witness:
  "\<not> fail_destroy no_faults
   \<and> length [''alice'', ''data1'', ''read''] \<le> 6
   \<and> [] \<notin> set [''alice'', ''data1'', ''read'']
   \<and> removePolicy no_faults (fst (init Connection new_adapter Uninitialised)) [] ''p''
        [''alice'', ''data1'', ''read'']
        \<lparr> rows = [\<lparr> row_id = Some 1, ptype = ''p'', v0 = Some ''alice'', v1 = Some ''data1'',
                    v2 = Some ''read'', v3 = None, v4 = None, v5 = None \<rparr>,
                  \<lparr> row_id = Some 2, ptype = ''p'', v0 = Some ''alice'', v1 = Some ''data1'',
                    v2 = Some ''read'', v3 = Some ''allow'', v4 = None, v5 = None \<rparr>,
                  \<lparr> row_id = Some 3, ptype = ''p'', v0 = Some ''alice'', v1 = Some ''data1'',
                    v2 = Some ''read'', v3 = None, v4 = None, v5 = None \<rparr>],
          next_id = 4 \<rparr>
      = (Inr (),
         \<lparr> rows = [\<lparr> row_id = Some 2, ptype = ''p'', v0 = Some ''alice'', v1 = Some ''data1'',
                     v2 = Some ''read'', v3 = Some ''allow'', v4 = None, v5 = None \<rparr>],
           next_id = 4 \<rparr>)"
proof -
  have nf: "\<not> fail_destroy no_faults"
    by (simp add: no_faults_def)
  have six: "[0..<6] = [0, 1, 2, 3, 4, 5::nat]"
    by (rule upt6)
  from nf removePolicy_deletes_matching [of no_faults
      "fst (init Connection new_adapter Uninitialised)" "[]" "''p''"
      "[''alice'', ''data1'', ''read'']"
      "\<lparr> rows = [\<lparr> row_id = Some 1, ptype = ''p'', v0 = Some ''alice'', v1 = Some ''data1'',
                    v2 = Some ''read'', v3 = None, v4 = None, v5 = None \<rparr>,
                  \<lparr> row_id = Some 2, ptype = ''p'', v0 = Some ''alice'', v1 = Some ''data1'',
                    v2 = Some ''read'', v3 = Some ''allow'', v4 = None, v5 = None \<rparr>,
                  \<lparr> row_id = Some 3, ptype = ''p'', v0 = Some ''alice'', v1 = Some ''data1'',
                    v2 = Some ''read'', v3 = None, v4 = None, v5 = None \<rparr>],
          next_id = 4 \<rparr>"]
  show ?thesis
    by (simp add: prod_eq_iff database.equality six slots_def nf)
qed

text \<open>
  C10. addPolicy and removePolicy do not read their argument \<open>sec\<close>: for any two section
  strings, with the same rule-set name, parameters, faults and store, each returns the
  same result and the same store.
\<close>

theorem sec_argument_ignored:
  "addPolicy f a sec1 pt params db = addPolicy f a sec2 pt params db
   \<and> removePolicy f a sec1 pt params db = removePolicy f a sec2 pt params db"
  by (simp add: addPolicy_def removePolicy_def)

text \<open>
  Adding a rule of which the store holds no copy and removing it again gives back the
  rows the store had.
\<close>

lemma add_then_remove:
  assumes "\<not> fail_save f" and "\<not> fail_destroy f'"
    and "\<forall>r\<in>set (rows db). \<not> (ptype r = pt \<and> slots r = slots (buildRule pt params))"
  shows "rows (snd (removePolicy f' a' sec' pt params (snd (addPolicy f a sec pt params db))))
           = rows db"
proof -
  have "filter (\<lambda>r. \<not> (ptype r = pt \<and> slots r = slots (buildRule pt params))) (rows db) = rows db"
    using assms(3) by (simp add: filter_id_conv)
  then show ?thesis
    using assms(1, 2)
    by (simp add: removePolicy_rows addPolicy_def insert_row_def ptype_buildRule slots_def)
qed

subsection \<open>Rows of the store and the stores the adapter can produce\<close>

lemma slots_row_id: "slots (r \<lparr> row_id := x \<rparr>) = slots r"
  by (simp add: slots_def)

lemma rows_insert_row:
  "rows (insert_row line db) = rows db @ [line \<lparr> row_id := Some (next_id db) \<rparr>]"
  by (simp add: insert_row_def)

lemma unsaved_bulkCreate:
  "map (\<lambda>r. r \<lparr> row_id := None \<rparr>) (rows (bulkCreate ls db))
     = map (\<lambda>r. r \<lparr> row_id := None \<rparr>) (rows db) @ map (\<lambda>r. r \<lparr> row_id := None \<rparr>) ls"
proof (induction ls arbitrary: db)
  case Nil
  then show ?case by (simp add: bulkCreate_def)
next
  case (Cons l ls)
  have "bulkCreate (l # ls) db = bulkCreate ls (insert_row l db)"
    by (simp add: bulkCreate_def)
  then show ?case
    using Cons.IH [of "insert_row l db"] by (simp add: rows_insert_row)
qed

lemma slots_bulkCreate:
  "map slots (rows (bulkCreate ls db)) = map slots (rows db) @ map slots ls"
  using arg_cong [OF unsaved_bulkCreate [of ls db], of "map slots"]
  by (simp add: slots_row_id comp_def)

lemma or_null_not_empty: "or_null v \<noteq> Some []"
  by (simp add: or_null_def truthy_def split: option.splits)

lemma buildRule_no_empty_slot: "Some [] \<notin> set (slots (buildRule pt rule))"
  by (simp add: slots_buildRule or_null_not_empty [THEN not_sym])

lemma section_lines_no_empty_slot:
  "l \<in> set (section_lines astMap) \<Longrightarrow> Some [] \<notin> set (slots l)"
  by (auto simp add: section_lines_def section_rules_def buildRule_no_empty_slot)

lemma savePolicy_store:
  "snd (savePolicy f a m db) = db
   \<or> (\<exists>astMap_p astMap_g. m ''p'' = Some astMap_p \<and> m ''g'' = Some astMap_g
        \<and> snd (savePolicy f a m db)
            = bulkCreate (section_lines astMap_p @ section_lines astMap_g) (truncateTable db))"
  by (simp add: savePolicy_def savePolicy_try_def Let_def split: option.splits sum.splits)

text \<open>
  No row of a store written through the adapter holds the empty string in a slot: by
  induction on how the store was reached. buildRule turns an empty string into an absent
  slot, removePolicy only removes rows, and savePolicy either leaves the store or
  replaces it by built rows.
\<close>

lemma reachable_no_empty_slot:
  "reachable db \<Longrightarrow> s \<in> set (map slots (rows db)) \<Longrightarrow> Some [] \<notin> set s"
proof (induction arbitrary: s rule: reachable.induct)
  case (empty n)
  then show ?case by simp
next
  case (add db f a sec pt rule)
  then show ?case
    using buildRule_no_empty_slot [of pt rule]
    by (auto simp add: addPolicy_def rows_insert_row slots_row_id split: if_splits)
next
  case (remove db f a sec pt rule)
  then show ?case
    by (auto simp add: removePolicy_rows split: if_splits)
next
  case (save db f a model)
  from savePolicy_store [of f a model db] show ?case
  proof
    assume "snd (savePolicy f a model db) = db"
    with save show ?thesis by simp
  next
    assume "\<exists>astMap_p astMap_g. model ''p'' = Some astMap_p \<and> model ''g'' = Some astMap_g
        \<and> snd (savePolicy f a model db)
            = bulkCreate (section_lines astMap_p @ section_lines astMap_g) (truncateTable db)"
    then obtain ap ag where
      st: "snd (savePolicy f a model db) = bulkCreate (section_lines ap @ section_lines ag) (truncateTable db)"
      by blast
    have "map slots (rows (snd (savePolicy f a model db)))
            = map slots (section_lines ap @ section_lines ag)"
      by (simp add: st slots_bulkCreate truncateTable_def)
    with save.prems obtain l where "l \<in> set (section_lines ap @ section_lines ag)" and "s = slots l"
      by auto
    then show ?thesis
      using section_lines_no_empty_slot by auto
  qed
qed

subsection \<open>What loadPolicy makes of holes\<close>

lemma fields_present:
  "Some [] \<notin> set xs \<Longrightarrow>
     List.map_filter or_null xs = concat (map (\<lambda>v. case v of None \<Rightarrow> [] | Some s \<Rightarrow> [s]) xs)"
  by (induction xs) (auto simp add: or_null_def truthy_def split: option.splits)

lemma fields_filter_present:
  "List.map_filter or_null xs
     = filter (\<lambda>s. s \<noteq> []) (concat (map (\<lambda>v. case v of None \<Rightarrow> [] | Some s \<Rightarrow> [s]) xs))"
  by (induction xs) (auto simp add: or_null_def truthy_def split: option.splits)

lemma loadPolicy_lines:
  "\<not> fail_findAll f \<Longrightarrow>
     loadPolicy h f a m0 db = Inr (foldl (\<lambda>m line. h line m) m0 (map policy_line (rows db)))"
  by (simp add: loadPolicy_def findAll_def foldl_map)

lemma policy_fields_present:
  "policy_fields r = filter (\<lambda>s. s \<noteq> []) (present_values r)"
  by (simp add: policy_fields_map_filter present_values_def fields_filter_present)

text \<open>
  C9, as the specification states it, fails. A stored row with \<open>v0 = alice\<close>, \<open>v1\<close> the empty
  string and \<open>v2 = read\<close> has three present slot values; loadPolicy reads the two values
  \<open>alice\<close>, \<open>read\<close> from it and hands the engine the line \<open>p, alice, read\<close> (the line loader
  here appends each line it is given to a list).
\<close>

theorem loadPolicy_skips_holes_counterexample:
  "present_values \<lparr> row_id = Some 1, ptype = ''p'', v0 = Some ''alice'', v1 = Some '''',
       v2 = Some ''read'', v3 = None, v4 = None, v5 = None \<rparr> = [''alice'', '''', ''read'']
   \<and> policy_fields \<lparr> row_id = Some 1, ptype = ''p'', v0 = Some ''alice'', v1 = Some '''',
       v2 = Some ''read'', v3 = None, v4 = None, v5 = None \<rparr> = [''alice'', ''read'']
   \<and> loadPolicy (\<lambda>line m. m @ [line]) no_faults (fst (init Connection new_adapter Uninitialised)) []
        \<lparr> rows = [\<lparr> row_id = Some 1, ptype = ''p'', v0 = Some ''alice'', v1 = Some '''',
                    v2 = Some ''read'', v3 = None, v4 = None, v5 = None \<rparr>], next_id = 2 \<rparr>
      = Inr [''p, alice, read'']"
  by (simp add: present_values_def policy_fields_def policy_line_def slots_def truthy_def
      loadPolicy_def findAll_def no_faults_def)

text \<open>
  C9, amended. For every store, loadPolicy (unless its query is rejected) hands the
  engine's line loader, for each stored row in turn, the line made of the row's name
  followed by its present, non-empty slot values in slot order \<open>v0\<close> to \<open>v5\<close>, joined by a
  comma and a blank: holes are skipped wherever they are, and so are slots that hold the
  empty string. A row with \<open>v0\<close> present, \<open>v1\<close> absent and \<open>v2\<close> present is read as the two
  values \<open>v0\<close>, \<open>v2\<close>. For every row of a store written through the adapter, which holds no
  empty string, the values read are all the present slot values.
\<close>

theorem loadPolicy_skips_holes:
  "(\<not> fail_findAll f \<longrightarrow>
      loadPolicy h f a m0 db
        = Inr (foldl (\<lambda>m line. h line m) m0
            (map (\<lambda>r. ptype r @ '', '' @ join '', '' (filter (\<lambda>s. s \<noteq> []) (present_values r)))
               (rows db))))
   \<and> policy_fields r = filter (\<lambda>s. s \<noteq> []) (present_values r)
   \<and> (reachable db \<and> r \<in> set (rows db) \<longrightarrow> policy_fields r = present_values r)"
proof -
  have lines: "\<not> fail_findAll f \<longrightarrow>
      loadPolicy h f a m0 db
        = Inr (foldl (\<lambda>m line. h line m) m0
            (map (\<lambda>r. ptype r @ '', '' @ join '', '' (filter (\<lambda>s. s \<noteq> []) (present_values r)))
               (rows db)))"
  proof -
    have "policy_line
            = (\<lambda>r. ptype r @ '', '' @ join '', '' (filter (\<lambda>s. s \<noteq> []) (present_values r)))"
      by (rule ext) (simp add: policy_line_def policy_fields_present)
    then show ?thesis
      by (simp add: loadPolicy_lines)
  qed
  have "reachable db \<and> r \<in> set (rows db) \<longrightarrow> Some [] \<notin> set (slots r)"
    using reachable_no_empty_slot [of db "slots r"] by auto
  then have "reachable db \<and> r \<in> set (rows db) \<longrightarrow> policy_fields r = present_values r"
    by (simp add: policy_fields_map_filter present_values_def fields_present)
  with lines policy_fields_present [of r] show ?thesis by blast
qed

text \<open>
  An instance: the store written by addPolicy with the parameters \<open>alice\<close>, empty string,
  \<open>read\<close> holds one row, with a hole at \<open>v1\<close>; its two present values are read, and the line
  loaded is \<open>p, alice, read\<close>.
\<close>

theorem loadPolicy_skips_holes_witness:
  "\<not> fail_findAll no_faults
   \<and> reachable (snd (addPolicy no_faults new_adapter [] ''p'' [''alice'', '''', ''read'']
       \<lparr> rows = [], next_id = 1 \<rparr>))
   \<and> rows (snd (addPolicy no_faults new_adapter [] ''p'' [''alice'', '''', ''read'']
       \<lparr> rows = [], next_id = 1 \<rparr>))
      = [\<lparr> row_id = Some 1, ptype = ''p'', v0 = Some ''alice'', v1 = None, v2 = Some ''read'',
           v3 = None, v4 = None, v5 = None \<rparr>]
   \<and> present_values \<lparr> row_id = Some 1, ptype = ''p'', v0 = Some ''alice'', v1 = None,
        v2 = Some ''read'', v3 = None, v4 = None, v5 = None \<rparr> = [''alice'', ''read'']
   \<and> policy_fields \<lparr> row_id = Some 1, ptype = ''p'', v0 = Some ''alice'', v1 = None,
        v2 = Some ''read'', v3 = None, v4 = None, v5 = None \<rparr> = [''alice'', ''read'']
   \<and> loadPolicy (\<lambda>line m. m @ [line]) no_faults new_adapter []
        (snd (addPolicy no_faults new_adapter [] ''p'' [''alice'', '''', ''read'']
          \<lparr> rows = [], next_id = 1 \<rparr>))
      = Inr [''p, alice, read'']"
proof -
  have nf: "\<not> fail_findAll no_faults"
    by (simp add: no_faults_def)
  have reach: "reachable (snd (addPolicy no_faults new_adapter [] ''p'' [''alice'', '''', ''read'']
       \<lparr> rows = [], next_id = 1 \<rparr>))"
    by (rule reachable.add) (rule reachable.empty)
  have stored: "rows (snd (addPolicy no_faults new_adapter [] ''p'' [''alice'', '''', ''read'']
       \<lparr> rows = [], next_id = 1 \<rparr>))
      = [\<lparr> row_id = Some 1, ptype = ''p'', v0 = Some ''alice'', v1 = None, v2 = Some ''read'',
           v3 = None, v4 = None, v5 = None \<rparr>]"
    by (simp add: addPolicy_def no_faults_def insert_row_def buildRule_def or_null_def truthy_def
        element_def)
  have pv: "present_values \<lparr> row_id = Some 1, ptype = ''p'', v0 = Some ''alice'', v1 = None,
        v2 = Some ''read'', v3 = None, v4 = None, v5 = None \<rparr> = [''alice'', ''read'']"
    by (simp add: present_values_def slots_def)
  from nf reach stored pv
    loadPolicy_skips_holes [of no_faults "\<lambda>line m. m @ [line]" new_adapter "[]"
      "snd (addPolicy no_faults new_adapter [] ''p'' [''alice'', '''', ''read'']
         \<lparr> rows = [], next_id = 1 \<rparr>)"
      "\<lparr> row_id = Some 1, ptype = ''p'', v0 = Some ''alice'', v1 = None, v2 = Some ''read'',
         v3 = None, v4 = None, v5 = None \<rparr>"]
  show ?thesis
    by simp
qed

subsection \<open>Present and absent slots\<close>

lemma slot_nth:
  "N < 6 \<Longrightarrow> slots (buildRule pt params) ! N = or_null (element params N)"
  unfolding slots_buildRule by (auto simp add: less_Suc_eq numeral_eq_Suc)

lemma or_null_element_snoc:
  "or_null (element (params @ ['''']) i) = or_null (element params i)"
  by (simp add: or_null_def truthy_def element_def nth_append less_Suc_eq)

lemma buildRule_snoc_empty: "buildRule pt (params @ ['''']) = buildRule pt params"
  by (simp add: buildRule_def or_null_element_snoc)

text \<open>
  C6, as the specification states it, fails: in the row built from the two parameters
  \<open>alice\<close> and the empty string, slot \<open>v1\<close> is absent although the rule has a second
  parameter; and removePolicy called with these parameters deletes the stored row of
  the one-parameter rule \<open>alice\<close>, whose slot \<open>v1\<close> is absent: the empty-string filter
  has matched an absent slot.
\<close>

theorem slot_presence_counterexample:
  "v1 (buildRule ''p'' [''alice'', '''']) = None
   \<and> addPolicy no_faults new_adapter [] ''p'' [''alice''] \<lparr> rows = [], next_id = 1 \<rparr>
      = (Inr (), \<lparr> rows = [\<lparr> row_id = Some 1, ptype = ''p'', v0 = Some ''alice'', v1 = None,
                   v2 = None, v3 = None, v4 = None, v5 = None \<rparr>], next_id = 2 \<rparr>)
   \<and> removePolicy no_faults new_adapter [] ''p'' [''alice'', '''']
        \<lparr> rows = [\<lparr> row_id = Some 1, ptype = ''p'', v0 = Some ''alice'', v1 = None,
                   v2 = None, v3 = None, v4 = None, v5 = None \<rparr>], next_id = 2 \<rparr>
      = (Inr (), \<lparr> rows = [], next_id = 2 \<rparr>)"
  by (simp add: removePolicy_rows addPolicy_def insert_row_def no_faults_def buildRule_def
      slots_def or_null_def truthy_def element_def)

text \<open>
  C6, amended. In the row buildRule builds from a parameter list, slot \<open>vN\<close> (\<open>N < 6\<close>) is
  present exactly when \<open>N < length params\<close> and parameter \<open>N\<close> is not the empty string.
  An absent slot is a no-value state of its own: no built row, and no row of a store
  written through the adapter, holds the empty string in a slot. An empty-string
  parameter is encoded as an absent slot, so removePolicy with an empty string appended
  to its parameters does what removePolicy without it does, matching rows where that
  slot is absent; a non-empty parameter never matches an absent slot: a row whose slot
  \<open>vN\<close> is absent survives removePolicy whenever parameter \<open>N\<close> is non-empty.
\<close>

theorem slot_presence:
  "(N < 6 \<longrightarrow>
      (slots (buildRule pt params) ! N \<noteq> None) = (N < length params \<and> params ! N \<noteq> []))
   \<and> Some [] \<notin> set (slots (buildRule pt params))
   \<and> (reachable db \<and> r \<in> set (rows db) \<longrightarrow> Some [] \<notin> set (slots r))
   \<and> removePolicy f a sec pt (params @ ['''']) db = removePolicy f a sec pt params db
   \<and> (\<not> fail_destroy f \<and> N < 6 \<and> N < length params \<and> params ! N \<noteq> []
        \<and> r \<in> set (rows db) \<and> slots r ! N = None
      \<longrightarrow> r \<in> set (rows (snd (removePolicy f a sec pt params db))))"
proof -
  have present: "N < 6 \<longrightarrow>
      (slots (buildRule pt params) ! N \<noteq> None) = (N < length params \<and> params ! N \<noteq> [])"
    by (simp add: slot_nth or_null_def truthy_def element_def)
  have stored: "reachable db \<and> r \<in> set (rows db) \<longrightarrow> Some [] \<notin> set (slots r)"
    using reachable_no_empty_slot [of db "slots r"] by auto
  have same: "removePolicy f a sec pt (params @ ['''']) db = removePolicy f a sec pt params db"
    by (simp add: removePolicy_def buildRule_snoc_empty)
  have kept: "\<not> fail_destroy f \<and> N < 6 \<and> N < length params \<and> params ! N \<noteq> []
        \<and> r \<in> set (rows db) \<and> slots r ! N = None
      \<longrightarrow> r \<in> set (rows (snd (removePolicy f a sec pt params db)))"
  proof
    assume h: "\<not> fail_destroy f \<and> N < 6 \<and> N < length params \<and> params ! N \<noteq> []
        \<and> r \<in> set (rows db) \<and> slots r ! N = None"
    with present have "slots (buildRule pt params) ! N \<noteq> None" by simp
    with h have "slots r \<noteq> slots (buildRule pt params)" by auto
    with h show "r \<in> set (rows (snd (removePolicy f a sec pt params db)))"
      by (simp add: removePolicy_rows)
  qed
  from present stored same kept buildRule_no_empty_slot [of pt params] show ?thesis
    by blast
qed

theorem slot_presence_witness:
  "(1::nat) < 6 \<and> \<not> fail_destroy no_faults \<and> (1::nat) < length [''alice'', ''data1'']
   \<and> [''alice'', ''data1''] ! 1 \<noteq> []
   \<and> reachable (snd (addPolicy no_faults new_adapter [] ''p'' [''alice'']
        \<lparr> rows = [], next_id = 1 \<rparr>))
   \<and> \<lparr> row_id = Some 1, ptype = ''p'', v0 = Some ''alice'', v1 = None, v2 = None, v3 = None,
        v4 = None, v5 = None \<rparr>
      \<in> set (rows (snd (addPolicy no_faults new_adapter [] ''p'' [''alice'']
        \<lparr> rows = [], next_id = 1 \<rparr>)))
   \<and> slots \<lparr> row_id = Some 1, ptype = ''p'', v0 = Some ''alice'', v1 = None, v2 = None,
        v3 = None, v4 = None, v5 = None \<rparr> ! 1 = None
   \<and> slots (buildRule ''p'' [''alice'', ''data1'']) ! 1 \<noteq> None
   \<and> Some [] \<notin> set (slots \<lparr> row_id = Some 1, ptype = ''p'', v0 = Some ''alice'', v1 = None,
        v2 = None, v3 = None, v4 = None, v5 = None \<rparr>)
   \<and> \<lparr> row_id = Some 1, ptype = ''p'', v0 = Some ''alice'', v1 = None, v2 = None, v3 = None,
        v4 = None, v5 = None \<rparr>
      \<in> set (rows (snd (removePolicy no_faults new_adapter [] ''p'' [''alice'', ''data1'']
           (snd (addPolicy no_faults new_adapter [] ''p'' [''alice'']
             \<lparr> rows = [], next_id = 1 \<rparr>)))))"
proof -
  have reach: "reachable (snd (addPolicy no_faults new_adapter [] ''p'' [''alice'']
       \<lparr> rows = [], next_id = 1 \<rparr>))"
    by (rule reachable.add) (rule reachable.empty)
  have mem: "\<lparr> row_id = Some 1, ptype = ''p'', v0 = Some ''alice'', v1 = None, v2 = None,
        v3 = None, v4 = None, v5 = None \<rparr>
      \<in> set (rows (snd (addPolicy no_faults new_adapter [] ''p'' [''alice'']
       \<lparr> rows = [], next_id = 1 \<rparr>)))"
    by (simp add: addPolicy_def no_faults_def insert_row_def buildRule_def or_null_def truthy_def
        element_def)
  have nofault: "\<not> fail_destroy no_faults"
    by (simp add: no_faults_def)
  have absent: "slots \<lparr> row_id = Some 1, ptype = ''p'', v0 = Some ''alice'', v1 = None, v2 = None,
        v3 = None, v4 = None, v5 = None \<rparr> ! 1 = None"
    by (simp add: slots_def)
  show ?thesis
    using reach mem nofault absent
      slot_presence [of 1 "''p''" "[''alice'', ''data1'']"
        "snd (addPolicy no_faults new_adapter [] ''p'' [''alice''] \<lparr> rows = [], next_id = 1 \<rparr>)"
        "\<lparr> row_id = Some 1, ptype = ''p'', v0 = Some ''alice'', v1 = None, v2 = None,
          v3 = None, v4 = None, v5 = None \<rparr>" no_faults new_adapter "[]"]
    by simp
qed

subsection \<open>savePolicy\<close>

lemma next_id_insert_row: "next_id (insert_row line db) = Suc (next_id db)"
  by (simp add: insert_row_def)

lemma rows_bulkCreate:
  "rows (bulkCreate ls db)
     = rows db @ map (\<lambda>(i, line). line \<lparr> row_id := Some i \<rparr>) (enumerate (next_id db) ls)"
proof (induction ls arbitrary: db)
  case Nil
  then show ?case by (simp add: bulkCreate_def)
next
  case (Cons l ls)
  have "bulkCreate (l # ls) db = bulkCreate ls (insert_row l db)"
    by (simp add: bulkCreate_def)
  then show ?case
    using Cons.IH [of "insert_row l db"] by (simp add: rows_insert_row next_id_insert_row)
qed

text \<open>
  What holds of savePolicy whatever faults are injected: a failed delete-all or bulk
  insert makes the call fail with the store as it was; the store afterwards is the prior
  store or holds exactly the rows built from the model under new keys; and when the
  commit goes through, the call either returns \<^verbatim>\<open>true\<close> with the store replaced or fails
  with the store as it was.
\<close>

lemma savePolicy_failure:
  "fail_destroy f \<or> fail_bulkCreate f \<Longrightarrow>
     (\<exists>ex. fst (savePolicy f a m db) = Inl ex) \<and> snd (savePolicy f a m db) = db"
  by (auto simp add: savePolicy_def savePolicy_try_def Let_def split: option.splits)

lemma savePolicy_outcome:
  "\<not> fail_commit f \<Longrightarrow>
     (fst (savePolicy f a m db) = Inr True
      \<and> (\<exists>astMap_p astMap_g. m ''p'' = Some astMap_p \<and> m ''g'' = Some astMap_g
           \<and> snd (savePolicy f a m db)
               = bulkCreate (section_lines astMap_p @ section_lines astMap_g) (truncateTable db)))
     \<or> ((\<exists>ex. fst (savePolicy f a m db) = Inl ex) \<and> snd (savePolicy f a m db) = db)"
  by (auto simp add: savePolicy_def savePolicy_try_def Let_def split: option.splits)


text \<open>The rows after a delete-all and a bulk insert: the inserted rows under new keys.\<close>

lemma rows_replaced:
  "rows (bulkCreate ls (truncateTable db))
     = map (\<lambda>(i, line). line \<lparr> row_id := Some i \<rparr>) (enumerate (next_id db) ls)"
  by (simp add: rows_bulkCreate truncateTable_def)

lemma savePolicy_unchanged_or_replaced:
  "snd (savePolicy f a m db) = db
   \<or> (\<exists>astMap_p astMap_g. m ''p'' = Some astMap_p \<and> m ''g'' = Some astMap_g
        \<and> rows (snd (savePolicy f a m db))
            = map (\<lambda>(i, line). line \<lparr> row_id := Some i \<rparr>)
                (enumerate (next_id db) (section_lines astMap_p @ section_lines astMap_g)))"
  using savePolicy_store [of f a m db] rows_replaced by metis

lemma savePolicy_reported:
  "\<not> fail_commit f \<Longrightarrow>
     (fst (savePolicy f a m db) = Inr True
      \<and> (\<exists>astMap_p astMap_g. m ''p'' = Some astMap_p \<and> m ''g'' = Some astMap_g
           \<and> rows (snd (savePolicy f a m db))
               = map (\<lambda>(i, line). line \<lparr> row_id := Some i \<rparr>)
                   (enumerate (next_id db) (section_lines astMap_p @ section_lines astMap_g))))
     \<or> ((\<exists>ex. fst (savePolicy f a m db) = Inl ex) \<and> snd (savePolicy f a m db) = db)"
  using savePolicy_outcome [of f a m db] rows_replaced by metis

text \<open>
  An instance of a fault before the commit: the bulk insert fails after the delete-all,
  over a store that holds one row; the call fails and the store still holds that row.
\<close>

lemma savePolicy_insert_fault_example:
  "savePolicy (no_faults \<lparr> fail_bulkCreate := True \<rparr>) \<lparr> sequelize = Some Connection \<rparr>
        [''p'' \<mapsto> [(''p'', \<lparr> policy = [[''alice'', ''data1'', ''read''],
                                          [''bob'', ''data2'', ''write'']] \<rparr>)],
         ''g'' \<mapsto> [(''g'', \<lparr> policy = [] \<rparr>)]]
        \<lparr> rows = [\<lparr> row_id = Some 1, ptype = ''p'', v0 = Some ''carol'', v1 = Some ''data3'',
                    v2 = Some ''read'', v3 = None, v4 = None, v5 = None \<rparr>], next_id = 2 \<rparr>
      = (Inl StoreError,
         \<lparr> rows = [\<lparr> row_id = Some 1, ptype = ''p'', v0 = Some ''carol'', v1 = Some ''data3'',
                    v2 = Some ''read'', v3 = None, v4 = None, v5 = None \<rparr>], next_id = 2 \<rparr>)"
  by (simp add: savePolicy_def savePolicy_try_def no_faults_def)

text \<open>
  C1, at a save whose commit is rejected. \<^verbatim>\<open>tx.commit()\<close> is the one call to the store in
  savePolicy that is not awaited, so its rejection reaches neither the \<^verbatim>\<open>catch\<close> nor the
  caller. Over a store that holds one row, the save of a model of two rules on an
  initialised adapter returns \<^verbatim>\<open>true\<close> and the store still holds exactly the prior row:
  the prior records are not removed, the model's records are not inserted, and the call
  does not fail. The same call with no fault returns \<^verbatim>\<open>true\<close> as well, with the prior row
  gone and the two rows of the model stored.
\<close>

theorem savePolicy_unawaited_commit:
  "savePolicy (no_faults \<lparr> fail_commit := True \<rparr>) (fst (init Connection new_adapter Uninitialised))
        [''p'' \<mapsto> [(''p'', \<lparr> policy = [[''alice'', ''data1'', ''read''],
                                          [''bob'', ''data2'', ''write'']] \<rparr>)],
         ''g'' \<mapsto> [(''g'', \<lparr> policy = [] \<rparr>)]]
        \<lparr> rows = [\<lparr> row_id = Some 1, ptype = ''p'', v0 = Some ''carol'', v1 = Some ''data3'',
                    v2 = Some ''read'', v3 = None, v4 = None, v5 = None \<rparr>], next_id = 2 \<rparr>
      = (Inr True,
         \<lparr> rows = [\<lparr> row_id = Some 1, ptype = ''p'', v0 = Some ''carol'', v1 = Some ''data3'',
                    v2 = Some ''read'', v3 = None, v4 = None, v5 = None \<rparr>], next_id = 2 \<rparr>)
   \<and> savePolicy no_faults (fst (init Connection new_adapter Uninitialised))
        [''p'' \<mapsto> [(''p'', \<lparr> policy = [[''alice'', ''data1'', ''read''],
                                          [''bob'', ''data2'', ''write'']] \<rparr>)],
         ''g'' \<mapsto> [(''g'', \<lparr> policy = [] \<rparr>)]]
        \<lparr> rows = [\<lparr> row_id = Some 1, ptype = ''p'', v0 = Some ''carol'', v1 = Some ''data3'',
                    v2 = Some ''read'', v3 = None, v4 = None, v5 = None \<rparr>], next_id = 2 \<rparr>
      = (Inr True,
         \<lparr> rows = [\<lparr> row_id = Some 2, ptype = ''p'', v0 = Some ''alice'', v1 = Some ''data1'',
                    v2 = Some ''read'', v3 = None, v4 = None, v5 = None \<rparr>,
                  \<lparr> row_id = Some 3, ptype = ''p'', v0 = Some ''bob'', v1 = Some ''data2'',
                    v2 = Some ''write'', v3 = None, v4 = None, v5 = None \<rparr>], next_id = 4 \<rparr>)"
  by (simp add: savePolicy_def savePolicy_try_def init_def new_adapter_def no_faults_def
      truncateTable_def bulkCreate_def insert_row_def section_lines_def section_rules_def
      buildRule_def or_null_def truthy_def element_def)

subsection \<open>loadPolicy after savePolicy\<close>

lemma policy_line_row_id: "policy_line (line \<lparr> row_id := x \<rparr>) = policy_line line"
  by (simp add: policy_line_def policy_fields_def slots_def)

lemma policy_line_buildRule:
  "policy_line (buildRule pt rule) = pt @ '', '' @ join '', '' (filter (\<lambda>s. s \<noteq> []) (take 6 rule))"
  by (simp add: policy_line_def ptype_buildRule policy_fields_buildRule)

lemma policy_line_enumerate:
  "map policy_line (map (\<lambda>(i, line). line \<lparr> row_id := Some i \<rparr>) (enumerate n ls))
     = map policy_line ls"
  by (induction ls arbitrary: n) (simp_all add: policy_line_row_id)

lemma policy_line_section_lines:
  "map policy_line (section_lines astMap)
     = map (\<lambda>(pt, rule). pt @ '', '' @ join '', '' (filter (\<lambda>s. s \<noteq> []) (take 6 rule)))
         (section_rules astMap)"
  by (simp add: section_lines_def policy_line_buildRule split_def)

text \<open>
  C2, amended. For every model and every prior store, after savePolicy has succeeded
  and its commit has gone through, loadPolicy (unless its query is rejected) hands the
  engine's line loader exactly one line per rule of the model, the rules of the \<open>p\<close>
  section first and those of the \<open>g\<close> section after them, each in the model's order, and
  nothing of what was stored before: the line of a rule is its rule-set name followed
  by the non-empty strings among its first six parameters, joined by a comma and a
  blank. For a rule of at most six parameters, none of them empty, these are the rule's
  parameters. This holds for every line loader \<open>h\<close>.
\<close>

theorem savePolicy_then_loadPolicy:
  "fst (savePolicy f a m db) = Inr True \<and> \<not> fail_commit f \<and> \<not> fail_findAll f' \<longrightarrow>
     (\<exists>astMap_p astMap_g. m ''p'' = Some astMap_p \<and> m ''g'' = Some astMap_g
        \<and> loadPolicy h f' a' m0 (snd (savePolicy f a m db))
            = Inr (foldl (\<lambda>mo line. h line mo) m0
                (map (\<lambda>(pt, rule). pt @ '', '' @ join '', '' (filter (\<lambda>s. s \<noteq> []) (take 6 rule)))
                   (section_rules astMap_p @ section_rules astMap_g))))"
proof
  assume h: "fst (savePolicy f a m db) = Inr True \<and> \<not> fail_commit f \<and> \<not> fail_findAll f'"
  then have "\<not> fail_commit f" and nf: "\<not> fail_findAll f'" by simp_all
  from savePolicy_outcome [OF this(1), of a m db] h obtain ap ag where
    sec: "m ''p'' = Some ap" "m ''g'' = Some ag" and
    st: "snd (savePolicy f a m db) = bulkCreate (section_lines ap @ section_lines ag) (truncateTable db)"
    by auto
  have "map policy_line (rows (snd (savePolicy f a m db)))
          = map (\<lambda>(pt, rule). pt @ '', '' @ join '', '' (filter (\<lambda>s. s \<noteq> []) (take 6 rule)))
              (section_rules ap @ section_rules ag)"
    by (simp add: st rows_bulkCreate truncateTable_def policy_line_enumerate
        policy_line_section_lines del: map_map)
  with sec show "\<exists>astMap_p astMap_g. m ''p'' = Some astMap_p \<and> m ''g'' = Some astMap_g
        \<and> loadPolicy h f' a' m0 (snd (savePolicy f a m db))
            = Inr (foldl (\<lambda>mo line. h line mo) m0
                (map (\<lambda>(pt, rule). pt @ '', '' @ join '', '' (filter (\<lambda>s. s \<noteq> []) (take 6 rule)))
                   (section_rules astMap_p @ section_rules astMap_g)))"
    by (simp add: loadPolicy_lines [OF nf])
qed

text \<open>
  C2, as the specification states it, fails: a model whose rule-set \<open>p\<close> holds the one rule
  \<open>alice\<close>, empty string, \<open>read\<close> is saved with success into an empty store; the one row
  stored has \<open>v1\<close> absent, the line loadPolicy produces from it is \<open>p, alice, read\<close>, and
  loading into the cleared model yields the two-parameter rule \<open>alice\<close>, \<open>read\<close>, which the
  model did not hold.
\<close>

theorem savePolicy_then_loadPolicy_counterexample:
  "savePolicy no_faults (fst (init Connection new_adapter Uninitialised))
     [''p'' \<mapsto> [(''p'', \<lparr> policy = [[''alice'', '''', ''read'']] \<rparr>)],
      ''g'' \<mapsto> [(''g'', \<lparr> policy = [] \<rparr>)]]
     \<lparr> rows = [], next_id = 1 \<rparr>
    = (Inr True,
       \<lparr> rows = [\<lparr> row_id = Some 1, ptype = ''p'', v0 = Some ''alice'', v1 = None,
                   v2 = Some ''read'', v3 = None, v4 = None, v5 = None \<rparr>], next_id = 2 \<rparr>)
   \<and> map policy_line
        [\<lparr> row_id = Some 1, ptype = ''p'', v0 = Some ''alice'', v1 = None,
           v2 = Some ''read'', v3 = None, v4 = None, v5 = None \<rparr>] = [''p, alice, read'']
   \<and> map_sum id (\<lambda>m. (m ''p'', m ''g''))
        (loadPolicy Helper_loadPolicyLine no_faults (fst (init Connection new_adapter Uninitialised))
           [''p'' \<mapsto> [(''p'', \<lparr> policy = [] \<rparr>)], ''g'' \<mapsto> [(''g'', \<lparr> policy = [] \<rparr>)]]
           \<lparr> rows = [\<lparr> row_id = Some 1, ptype = ''p'', v0 = Some ''alice'', v1 = None,
                       v2 = Some ''read'', v3 = None, v4 = None, v5 = None \<rparr>], next_id = 2 \<rparr>)
      = Inr (Some [(''p'', \<lparr> policy = [[''alice'', ''read'']] \<rparr>)],
             Some [(''g'', \<lparr> policy = [] \<rparr>)])
   \<and> [[''alice'', ''read'']] \<noteq> [[''alice'', '''', ''read'']]"
  by (simp add: savePolicy_def savePolicy_try_def init_def new_adapter_def no_faults_def
      truncateTable_def bulkCreate_def insert_row_def section_lines_def section_rules_def
      buildRule_def or_null_def truthy_def element_def
      policy_line_def policy_fields_def slots_def
      loadPolicy_def findAll_def Helper_loadPolicyLine_def trim_def push_rule_def)

text \<open>
  An instance, with the line loader that appends each line it is given to a list: after
  a save over a store that held one other row, the lines loaded are those of the two \<open>p\<close>
  rules and the one \<open>g\<close> rule of the model.
\<close>

theorem savePolicy_then_loadPolicy_witness:
  "fst (savePolicy no_faults (fst (init Connection new_adapter Uninitialised))
     [''p'' \<mapsto> [(''p'', \<lparr> policy = [[''alice'', ''data1'', ''read''],
                                       [''bob'', ''data2'', ''write'']] \<rparr>)],
      ''g'' \<mapsto> [(''g'', \<lparr> policy = [[''alice'', ''data2_admin'']] \<rparr>)]]
     \<lparr> rows = [\<lparr> row_id = Some 1, ptype = ''p'', v0 = Some ''carol'', v1 = Some ''data3'',
                 v2 = Some ''read'', v3 = None, v4 = None, v5 = None \<rparr>], next_id = 2 \<rparr>) = Inr True
   \<and> \<not> fail_commit no_faults \<and> \<not> fail_findAll no_faults
   \<and> loadPolicy (\<lambda>line m. m @ [line]) no_faults new_adapter []
        (snd (savePolicy no_faults (fst (init Connection new_adapter Uninitialised))
           [''p'' \<mapsto> [(''p'', \<lparr> policy = [[''alice'', ''data1'', ''read''],
                                             [''bob'', ''data2'', ''write'']] \<rparr>)],
            ''g'' \<mapsto> [(''g'', \<lparr> policy = [[''alice'', ''data2_admin'']] \<rparr>)]]
           \<lparr> rows = [\<lparr> row_id = Some 1, ptype = ''p'', v0 = Some ''carol'', v1 = Some ''data3'',
                       v2 = Some ''read'', v3 = None, v4 = None, v5 = None \<rparr>], next_id = 2 \<rparr>))
      = Inr [''p, alice, data1, read'', ''p, bob, data2, write'', ''g, alice, data2_admin'']"
proof -
  have ok: "fst (savePolicy no_faults (fst (init Connection new_adapter Uninitialised))
     [''p'' \<mapsto> [(''p'', \<lparr> policy = [[''alice'', ''data1'', ''read''],
                                       [''bob'', ''data2'', ''write'']] \<rparr>)],
      ''g'' \<mapsto> [(''g'', \<lparr> policy = [[''alice'', ''data2_admin'']] \<rparr>)]]
     \<lparr> rows = [\<lparr> row_id = Some 1, ptype = ''p'', v0 = Some ''carol'', v1 = Some ''data3'',
                 v2 = Some ''read'', v3 = None, v4 = None, v5 = None \<rparr>], next_id = 2 \<rparr>) = Inr True"
    by (simp add: savePolicy_def savePolicy_try_def init_def new_adapter_def no_faults_def)
  have nf: "\<not> fail_commit no_faults \<and> \<not> fail_findAll no_faults"
    by (simp add: no_faults_def)
  show ?thesis
    using ok nf
      savePolicy_then_loadPolicy [of no_faults "fst (init Connection new_adapter Uninitialised)"
        "[''p'' \<mapsto> [(''p'', \<lparr> policy = [[''alice'', ''data1'', ''read''],
                                       [''bob'', ''data2'', ''write'']] \<rparr>)],
          ''g'' \<mapsto> [(''g'', \<lparr> policy = [[''alice'', ''data2_admin'']] \<rparr>)]]"
        "\<lparr> rows = [\<lparr> row_id = Some 1, ptype = ''p'', v0 = Some ''carol'', v1 = Some ''data3'',
                 v2 = Some ''read'', v3 = None, v4 = None, v5 = None \<rparr>], next_id = 2 \<rparr>"
        no_faults "\<lambda>line m. m @ [line]" new_adapter "[]"]
    by (simp add: section_rules_def)
qed

text \<open>
  The scenario of the repository's test: the policy of the RBAC example is saved into an
  empty table and loaded into the cleared model, which then holds the same four \<open>p\<close>
  rules and the same \<open>g\<close> rule.
\<close>

lemma save_then_load_scenario:
  "map_sum id (\<lambda>m. (m ''p'', m ''g''))
     (loadPolicy Helper_loadPolicyLine no_faults (fst (init Connection new_adapter Uninitialised))
        [''p'' \<mapsto> [(''p'', \<lparr> policy = [] \<rparr>)], ''g'' \<mapsto> [(''g'', \<lparr> policy = [] \<rparr>)]]
        (snd (savePolicy no_faults (fst (init Connection new_adapter Uninitialised))
           [''p'' \<mapsto> [(''p'', \<lparr> policy = [[''alice'', ''data1'', ''read''],
                                             [''bob'', ''data2'', ''write''],
                                             [''data2_admin'', ''data2'', ''read''],
                                             [''data2_admin'', ''data2'', ''write'']] \<rparr>)],
            ''g'' \<mapsto> [(''g'', \<lparr> policy = [[''alice'', ''data2_admin'']] \<rparr>)]]
           \<lparr> rows = [], next_id = 1 \<rparr>)))
   = Inr (Some [(''p'', \<lparr> policy = [[''alice'', ''data1'', ''read''],
                                      [''bob'', ''data2'', ''write''],
                                      [''data2_admin'', ''data2'', ''read''],
                                      [''data2_admin'', ''data2'', ''write'']] \<rparr>)],
          Some [(''g'', \<lparr> policy = [[''alice'', ''data2_admin'']] \<rparr>)])"
  by (simp add: savePolicy_def savePolicy_try_def init_def new_adapter_def no_faults_def
      truncateTable_def bulkCreate_def insert_row_def section_lines_def section_rules_def
      buildRule_def or_null_def truthy_def element_def
      policy_line_def policy_fields_def slots_def
      loadPolicy_def findAll_def Helper_loadPolicyLine_def trim_def push_rule_def)

subsection \<open>The lifecycle of the adapter\<close>









subsection \<open>removeFilteredPolicy\<close>

text \<open>
  C7. For every input, removeFilteredPolicy fails with the explicit error
  \<open>NotImplemented\<close> and leaves the store as it was: it never reports success, so it never
  reports success while deleting nothing.
\<close>

theorem removeFilteredPolicy_not_implemented:
  "removeFilteredPolicy a sec pt fieldIndex fieldValues db = (Inl NotImplemented, db)
   \<and> fst (removeFilteredPolicy a sec pt fieldIndex fieldValues db) \<noteq> Inr ()"
  by (simp add: removeFilteredPolicy_def)

end
